theory Spec2Isabelle
  imports Complex_Main "HOL-Library.Sublist"
begin

chapter \<open>MyDevInsights: the discovery and analysis pipeline\<close>

text \<open>
  A shallow embedding of the pipeline's TypeScript sources. Strings are \<open>char list\<close>,
  promises are run to completion in program order, a thrown exception is the \<open>Inl\<close>
  branch of a sum, and everything outside the process (filesystem, Redis, the database,
  the tokenizer, the clock) is an explicit argument or an explicit part of the state.
  JavaScript numbers that carry the fractions 0.95, 0.9, 0.7, ... are modelled as exact
  rationals; all comparisons the sources make on them are between such constants.
\<close>

section \<open>JavaScript string helpers\<close>








section \<open>The analysis queue (backend/src/lib/analysis-queue.ts, analyzer-worker queue manager)\<close>

datatype backoff_kind = exponential | fixed

record backoff_options =
  backoff_type :: backoff_kind
  backoff_delay :: nat

record keep_jobs =
  keep_count :: nat
  keep_age :: "nat option"

record job_options =
  attempts :: nat
  backoff :: "backoff_options option"
  removeOnComplete :: "keep_jobs option"
  removeOnFail :: "keep_jobs option"

record queue_config =
  queue_name :: string
  defaultJobOptions :: job_options

text \<open>\<open>AnalysisQueueClient.initialize\<close>: the queue the backend enqueues through.\<close>

definition AnalysisQueueClient_initialize :: queue_config where
  "AnalysisQueueClient_initialize =
     \<lparr> queue_name = ''project-analysis'',
       defaultJobOptions =
         \<lparr> attempts = 3,
           backoff = Some \<lparr> backoff_type = exponential, backoff_delay = 2000 \<rparr>,
           removeOnComplete = Some \<lparr> keep_count = 100, keep_age = Some (24 * 3600) \<rparr>,
           removeOnFail = Some \<lparr> keep_count = 500, keep_age = None \<rparr> \<rparr> \<rparr>"

text \<open>The \<open>QueueManager\<close> constructor of the worker: the same queue name, other defaults.\<close>

definition QueueManager_queue :: queue_config where
  "QueueManager_queue =
     \<lparr> queue_name = ''project-analysis'',
       defaultJobOptions =
         \<lparr> attempts = 1,
           backoff = None,
           removeOnComplete = Some \<lparr> keep_count = 100, keep_age = Some (24 * 3600) \<rparr>,
           removeOnFail = Some \<lparr> keep_count = 500, keep_age = None \<rparr> \<rparr> \<rparr>"

datatype priority_level = low | normal | high

record AnalysisJobData =
  projectId :: string
  projectPath :: string
  projectName :: string
  priority :: "priority_level option"
  forceRefresh :: bool

record queued_job =
  job_name :: string
  job_data :: AnalysisJobData
  job_priority :: nat
  job_id :: string
  job_opts :: job_options

text \<open>
  \<open>AnalysisQueueClient.addAnalysisJob\<close>. The call passes only \<open>priority\<close> and \<open>jobId\<close>, so
  every other option of the job is the queue's default; \<open>stamp\<close> is the rendering of
  \<open>Date.now()\<close>. A client that was never initialised throws.
\<close>

definition addAnalysisJob :: "queue_config option \<Rightarrow> string \<Rightarrow> AnalysisJobData \<Rightarrow> string + queued_job" where
  "addAnalysisJob queue stamp data =
     (case queue of
        None \<Rightarrow> Inl ''Queue not initialized''
      | Some q \<Rightarrow>
          Inr \<lparr> job_name = ''analyze-project'',
                job_data = data,
                job_priority = (if priority data = Some high then 1
                                else if priority data = Some low then 3 else 2),
                job_id = ''analysis-'' @ projectId data @ ''-'' @ stamp,
                job_opts = defaultJobOptions q \<rparr>)"

section \<open>The project validator (file-watcher/src/lib/validator.ts)\<close>

datatype ProjectType = nodejs | python | rust | go | java | php | ruby | csharp | unknown








definition PROJECT_MARKERS_csharp :: "string list" where
  "PROJECT_MARKERS_csharp = [''*.csproj'', ''*.sln'', ''project.json'']"

























section \<open>The context extractor (analyzer-worker/src/lib/context-extractor.ts)\<close>





















section \<open>The result cache (analyzer-worker/src/lib/cache.ts)\<close>

text \<open>
  Instants are milliseconds since the epoch. The platform functions the cache calls are
  arguments: the SHA-256 hex digest and \<open>Date.prototype.toISOString\<close>.
\<close>

record platform =
  sha256 :: "string \<Rightarrow> string"
  toISOString :: "int \<Rightarrow> string"

text \<open>
  \<open>CachedAnalysis\<close>. The entry is stored as its JSON text and read back with \<open>JSON.parse\<close>;
  the model keeps the entry itself, its dates being the instants their ISO strings denote.
\<close>

record 'r CachedAnalysis =
  ca_result :: 'r
  ca_projectHash :: string
  ca_lastModified :: int
  ca_createdAt :: int
  ca_expiresAt :: int

text \<open>
  The Redis keyspace: a value and the instant the server drops it. \<open>GET\<close> at server time
  \<open>t\<close> finds a key whose expiry has not passed; \<open>SETEX\<close> refuses a time to live that is
  not positive; \<open>DEL\<close> removes the key.
\<close>

type_synonym 'r redis = "string \<rightharpoonup> ('r CachedAnalysis \<times> int)"

definition redis_get :: "'r redis \<Rightarrow> int \<Rightarrow> string \<Rightarrow> 'r CachedAnalysis option" where
  "redis_get store t key =
     (case store key of
        None \<Rightarrow> None
      | Some (v, expiry) \<Rightarrow> if t > expiry then None else Some v)"

definition redis_setex :: "'r redis \<Rightarrow> int \<Rightarrow> string \<Rightarrow> int \<Rightarrow> 'r CachedAnalysis \<Rightarrow> 'r redis option" where
  "redis_setex store t key seconds v =
     (if seconds \<le> 0 then None else Some (store(key \<mapsto> (v, t + seconds * 1000))))"

definition redis_del :: "'r redis \<Rightarrow> string \<Rightarrow> 'r redis" where
  "redis_del store key = store(key := None)"

text \<open>
  What the outside decides about one call of \<open>get\<close> or \<open>set\<close>: the server's clock when the
  command runs, the process's clock when it reads \<open>new Date()\<close> or \<open>Date.now()\<close>, and whether
  the connection carries each command (a command that fails throws in the client).
\<close>

record cache_io =
  server_time :: int
  process_time :: int
  command_ok :: bool
  del_ok :: bool

definition generateCacheKey :: "platform \<Rightarrow> string \<Rightarrow> int \<Rightarrow> string" where
  "generateCacheKey pf path lastModified =
     ''analysis:'' @ sha256 pf (path @ '':'' @ toISOString pf lastModified)"

text \<open>\<open>CacheManager.get\<close>: every exception inside the \<open>try\<close> is logged and answered \<open>null\<close>.\<close>

definition cache_get :: "platform \<Rightarrow> cache_io \<Rightarrow> string \<Rightarrow> int \<Rightarrow> 'r redis
                         \<Rightarrow> 'r CachedAnalysis option \<times> 'r redis" where
  "cache_get pf io path lastModified store =
     (let key = generateCacheKey pf path lastModified in
      if \<not> command_ok io then (None, store)
      else (case redis_get store (server_time io) key of
              None \<Rightarrow> (None, store)
            | Some parsed \<Rightarrow>
                if ca_expiresAt parsed < process_time io then
                  (if del_ok io then (None, redis_del store key) else (None, store))
                else (Some parsed, store)))"

text \<open>\<open>CacheManager.set\<close>, with \<open>ttl\<close> in seconds; a failing \<open>SETEX\<close> is answered \<open>false\<close>.\<close>

definition cache_set :: "platform \<Rightarrow> int \<Rightarrow> cache_io \<Rightarrow> string \<Rightarrow> int \<Rightarrow> 'r \<Rightarrow> 'r redis
                         \<Rightarrow> bool \<times> 'r redis" where
  "cache_set pf ttl io path lastModified result store =
     (let key = generateCacheKey pf path lastModified;
          cached = \<lparr> ca_result = result,
                     ca_projectHash = sha256 pf path,
                     ca_lastModified = lastModified,
                     ca_createdAt = process_time io,
                     ca_expiresAt = process_time io + ttl * 1000 \<rparr>
      in if \<not> command_ok io then (False, store)
         else (case redis_setex store (server_time io) key ttl cached of
                 None \<Rightarrow> (False, store)
               | Some store' \<Rightarrow> (True, store')))"

text \<open>Stand-ins for the platform functions in the worked examples; any functions would do.\<close>

definition samplePlatform :: platform where
  "samplePlatform = \<lparr> sha256 = (\<lambda>s. s), toISOString = (\<lambda>t. if t = 0 then ''1970-01-01T00:00:00.000Z'' else ''later'') \<rparr>"

definition io_at :: "int \<Rightarrow> int \<Rightarrow> cache_io" where
  "io_at ts tp = \<lparr> server_time = ts, process_time = tp, command_ok = True, del_ok = True \<rparr>"

section \<open>The worker processor (analyzer-worker/src/lib/worker-processor.ts)\<close>

subsection \<open>Data\<close>

record AnalysisMetadata =
  md_model :: string
  md_tokensUsed :: int
  md_cacheHit :: bool
  md_cacheRead :: "int option"
  md_cacheCreation :: "int option"
  md_duration :: int
  md_timestamp :: int

text \<open>\<open>AnalysisResult\<close>; the structured fields are carried as their JSON text.\<close>

record AnalysisResult =
  ar_projectId :: string
  ar_summary :: string
  ar_techStack :: string
  ar_complexity :: string
  ar_recommendations :: string
  ar_completionScore :: int
  ar_maturityLevel :: string
  ar_productionGaps :: string
  ar_estimatedValue :: string
  ar_metadata :: AnalysisMetadata

datatype job_status = queued | extracting | analyzing | caching | completed | failed

record JobProgress =
  jp_projectId :: string
  jp_status :: job_status
  jp_progress :: int
  jp_message :: "string option"
  jp_error :: "string option"

datatype event_type = analysis_started | analysis_progress | analysis_completed | analysis_failed

datatype event_data =
    StartedData string
  | ProgressData JobProgress
  | CompletedData string string string AnalysisMetadata
  | FailedData string

text \<open>\<open>WebSocketEvent\<close>, without its \<open>timestamp\<close> (the wall clock at emission).\<close>

record WebSocketEvent =
  ev_type :: event_type
  ev_projectId :: string
  ev_data :: event_data

datatype ProjectStatus = DISCOVERED | QUEUED | ANALYZING | ANALYZED | ERROR | ARCHIVED

text \<open>The columns of \<open>projects\<close> and \<open>project_analyses\<close> that the processor writes.\<close>

record project_row =
  pr_status :: ProjectStatus
  pr_analyzedAt :: "int option"
  pr_fileCount :: "int option"
  pr_linesOfCode :: "int option"
  pr_size :: "int option"

record analysis_row =
  an_projectId :: string
  an_summary :: string
  an_techStack :: string
  an_complexity :: string
  an_recommendations :: string
  an_completionScore :: int
  an_maturityLevel :: string
  an_productionGaps :: string
  an_estimatedValue :: string
  an_model :: string
  an_tokensUsed :: int
  an_cacheHit :: bool

record WorkerStats =
  jobsProcessed :: int
  jobsFailed :: int
  cacheHits :: int
  cacheMisses :: int
  totalTokensUsed :: int
  averageDuration :: rat

text \<open>The fields of \<open>ProjectContext\<close> that the processor reads.\<close>

record ProjectContext =
  ctx_fileCount :: int
  ctx_linesOfCode :: int
  ctx_totalSize :: int

text \<open>
  Everything the processor acts on: the events handed to the bus publisher (each with
  whether the publish went through), the progress object of the queue job, the two
  tables, the cache's keyspace and the in-memory statistics.
\<close>

record world =
  bus_log :: "(WebSocketEvent \<times> bool) list"
  job_progress :: "JobProgress option"
  projects :: "string \<rightharpoonup> project_row"
  analyses :: "analysis_row list"
  cache_store :: "AnalysisResult redis"
  worker_stats :: WorkerStats

datatype db_op = CreateAnalysis | UpdateProjectContext | UpdateProjectStatus

datatype path_stat = ENOENT | EACCES | OtherStatError string | NotADirectory | ADirectory

text \<open>
  What the outside decides during one job: whether each publish and each
  \<open>job.updateProgress\<close> goes through (an error carries its message), the two \<open>fs.stat\<close>
  calls, the clocks and connection of the two cache calls, the outcome of the context
  extraction under its 30 s timeout, the outcome of the rate-limited analysis under its
  timeout, whether each database statement fails, the clock at the status update and the
  job's duration.
\<close>

record job_env =
  publish_ok :: "WebSocketEvent \<Rightarrow> bool"
  job_update_error :: "JobProgress \<Rightarrow> string option"
  validate_stat :: path_stat
  mtime_stat :: "string + int"
  cache_get_io :: cache_io
  cache_set_io :: cache_io
  extract_outcome :: "string + ProjectContext"
  analyze_outcome :: "string + AnalysisResult"
  db_error :: "db_op \<Rightarrow> string option"
  db_now :: int
  duration :: int

record worker_config =
  cfg_platform :: platform
  cfg_cacheTTL :: int

subsection \<open>Sequencing awaited steps: the first exception ends the sequence\<close>

definition thenDo :: "(string + 'a) \<times> 'w \<Rightarrow> ('a \<Rightarrow> 'w \<Rightarrow> (string + 'b) \<times> 'w) \<Rightarrow> (string + 'b) \<times> 'w" where
  "thenDo r k = (case r of (Inl e, w) \<Rightarrow> (Inl e, w) | (Inr x, w) \<Rightarrow> k x w)"

subsection \<open>The event emitter\<close>

text \<open>\<open>WebSocketEmitter.emit\<close> catches a failing publish and answers \<open>false\<close>; no caller reads the answer.\<close>

definition emit :: "job_env \<Rightarrow> WebSocketEvent \<Rightarrow> world \<Rightarrow> world" where
  "emit env ev w = w\<lparr> bus_log := bus_log w @ [(ev, publish_ok env ev)] \<rparr>"

definition emitStarted :: "job_env \<Rightarrow> string \<Rightarrow> string \<Rightarrow> world \<Rightarrow> world" where
  "emitStarted env pid pname w =
     emit env \<lparr> ev_type = analysis_started, ev_projectId = pid, ev_data = StartedData pname \<rparr> w"

definition emitProgress :: "job_env \<Rightarrow> JobProgress \<Rightarrow> world \<Rightarrow> world" where
  "emitProgress env progress w =
     emit env \<lparr> ev_type = analysis_progress, ev_projectId = jp_projectId progress,
                ev_data = ProgressData progress \<rparr> w"

definition emitCompleted :: "job_env \<Rightarrow> AnalysisResult \<Rightarrow> world \<Rightarrow> world" where
  "emitCompleted env result w =
     emit env \<lparr> ev_type = analysis_completed, ev_projectId = ar_projectId result,
                ev_data = CompletedData (ar_summary result) (ar_complexity result)
                            (ar_techStack result) (ar_metadata result) \<rparr> w"

definition emitFailed :: "job_env \<Rightarrow> string \<Rightarrow> string \<Rightarrow> world \<Rightarrow> world" where
  "emitFailed env pid err w =
     emit env \<lparr> ev_type = analysis_failed, ev_projectId = pid, ev_data = FailedData err \<rparr> w"

subsection \<open>The processor's private steps\<close>

text \<open>\<open>updateProgress\<close>: \<open>job.updateProgress\<close> first, which may throw, then the progress event.\<close>

definition updateProgress :: "job_env \<Rightarrow> JobProgress \<Rightarrow> world \<Rightarrow> (string + unit) \<times> world" where
  "updateProgress env progress w =
     (case job_update_error env progress of
        Some err \<Rightarrow> (Inl err, w)
      | None \<Rightarrow> (Inr (), emitProgress env progress (w\<lparr> job_progress := Some progress \<rparr>)))"

definition validateProjectPath :: "job_env \<Rightarrow> string \<Rightarrow> string + unit" where
  "validateProjectPath env path =
     (case validate_stat env of
        ENOENT \<Rightarrow> Inl (''Project path does not exist: '' @ path)
      | EACCES \<Rightarrow> Inl (''Permission denied accessing: '' @ path)
      | OtherStatError err \<Rightarrow> Inl err
      | NotADirectory \<Rightarrow> Inl (''Path is not a directory: '' @ path)
      | ADirectory \<Rightarrow> Inr ())"

text \<open>
  \<open>saveToDatabase\<close>: two statements, each awaited on its own. The insert fails when the
  database fails or the project row is missing (the foreign key); the update fails when
  the database fails or finds no row. The \<open>catch\<close> logs and rethrows.
\<close>

definition toAnalysisRow :: "AnalysisResult \<Rightarrow> analysis_row" where
  "toAnalysisRow result =
     \<lparr> an_projectId = ar_projectId result,
       an_summary = ar_summary result,
       an_techStack = ar_techStack result,
       an_complexity = ar_complexity result,
       an_recommendations = ar_recommendations result,
       an_completionScore = ar_completionScore result,
       an_maturityLevel = ar_maturityLevel result,
       an_productionGaps = ar_productionGaps result,
       an_estimatedValue = ar_estimatedValue result,
       an_model = md_model (ar_metadata result),
       an_tokensUsed = md_tokensUsed (ar_metadata result),
       an_cacheHit = md_cacheHit (ar_metadata result) \<rparr>"

definition projectAnalysis_create :: "job_env \<Rightarrow> analysis_row \<Rightarrow> world \<Rightarrow> (string + unit) \<times> world" where
  "projectAnalysis_create env row w =
     (case db_error env CreateAnalysis of
        Some err \<Rightarrow> (Inl err, w)
      | None \<Rightarrow>
          (case projects w (an_projectId row) of
             None \<Rightarrow> (Inl ''Foreign key constraint violated'', w)
           | Some _ \<Rightarrow> (Inr (), w\<lparr> analyses := analyses w @ [row] \<rparr>)))"

definition project_update :: "job_env \<Rightarrow> db_op \<Rightarrow> string \<Rightarrow> (project_row \<Rightarrow> project_row) \<Rightarrow> world
                              \<Rightarrow> (string + unit) \<times> world" where
  "project_update env op pid change w =
     (case db_error env op of
        Some err \<Rightarrow> (Inl err, w)
      | None \<Rightarrow>
          (case projects w pid of
             None \<Rightarrow> (Inl ''Record to update not found'', w)
           | Some row \<Rightarrow> (Inr (), w\<lparr> projects := (projects w)(pid \<mapsto> change row) \<rparr>)))"

definition saveToDatabase :: "job_env \<Rightarrow> AnalysisResult \<Rightarrow> world \<Rightarrow> (string + unit) \<times> world" where
  "saveToDatabase env result w =
     thenDo (projectAnalysis_create env (toAnalysisRow result) w) (\<lambda>_ w.
       project_update env UpdateProjectStatus (ar_projectId result)
         (\<lambda>row. row\<lparr> pr_status := ANALYZED, pr_analyzedAt := Some (db_now env) \<rparr>) w)"

definition updateStats :: "int \<Rightarrow> int \<Rightarrow> world \<Rightarrow> world" where
  "updateStats dur tokensUsed w =
     (let s = worker_stats w;
          n = jobsProcessed s + 1;
          totalDuration = averageDuration s * of_int (n - 1) + of_int dur
      in w\<lparr> worker_stats := s\<lparr> jobsProcessed := n,
                                 totalTokensUsed := totalTokensUsed s + tokensUsed,
                                 averageDuration := totalDuration / of_int n \<rparr> \<rparr>)"

subsection \<open>\<open>processJob\<close>\<close>

definition progressOf :: "string \<Rightarrow> job_status \<Rightarrow> int \<Rightarrow> string \<Rightarrow> JobProgress" where
  "progressOf pid st pct msg =
     \<lparr> jp_projectId = pid, jp_status = st, jp_progress = pct, jp_message = Some msg,
       jp_error = None \<rparr>"

text \<open>The branch taken on a cache hit, from \<open>result = cached.result\<close> to the \<open>return\<close>.\<close>

definition serveFromCache :: "job_env \<Rightarrow> string \<Rightarrow> AnalysisResult \<Rightarrow> world \<Rightarrow> (string + unit) \<times> world" where
  "serveFromCache env pid result w =
     thenDo (saveToDatabase env result
               (w\<lparr> worker_stats := (worker_stats w)\<lparr> cacheHits := cacheHits (worker_stats w) + 1 \<rparr> \<rparr>))
       (\<lambda>_ w.
     thenDo (updateProgress env (progressOf pid completed 100 ''Analysis complete (from cache)'')
               (emitCompleted env result w))
       (\<lambda>_ w.
     (Inr (), updateStats (duration env) 0 w)))"

text \<open>Steps 5 to 9 of the \<open>try\<close> block: extraction, analysis, caching, saving, completion.\<close>

definition analyzeFresh :: "worker_config \<Rightarrow> job_env \<Rightarrow> AnalysisJobData \<Rightarrow> int \<Rightarrow> world
                            \<Rightarrow> (string + unit) \<times> world" where
  "analyzeFresh cfg env job lastModified w =
     (let pid = projectId job in
      thenDo (updateProgress env (progressOf pid extracting 20 ''Extracting project context'') w)
        (\<lambda>_ w.
      thenDo (extract_outcome env, w)
        (\<lambda>ctx w.
      thenDo (project_update env UpdateProjectContext pid
                (\<lambda>row. row\<lparr> pr_fileCount := Some (ctx_fileCount ctx),
                             pr_linesOfCode := Some (ctx_linesOfCode ctx),
                             pr_size := Some (ctx_totalSize ctx) \<rparr>) w)
        (\<lambda>_ w.
      thenDo (updateProgress env (progressOf pid analyzing 50 ''Analyzing with AI'') w)
        (\<lambda>_ w.
      thenDo (analyze_outcome env, w)
        (\<lambda>result w.
      thenDo (updateProgress env (progressOf pid caching 80 ''Caching results'') w)
        (\<lambda>_ w.
      thenDo (updateProgress env (progressOf pid caching 90 ''Saving to database'')
                (w\<lparr> cache_store := snd (cache_set (cfg_platform cfg) (cfg_cacheTTL cfg)
                                           (cache_set_io env) (projectPath job) lastModified
                                           result (cache_store w)) \<rparr>))
        (\<lambda>_ w.
      thenDo (saveToDatabase env result w)
        (\<lambda>_ w.
      thenDo (updateProgress env (progressOf pid completed 100 ''Analysis complete'')
                (emitCompleted env result w))
        (\<lambda>_ w.
      (Inr (), updateStats (duration env) (md_tokensUsed (ar_metadata result)) w)))))))))))"

text \<open>The \<open>try\<close> block of \<open>processJob\<close>.\<close>

definition processJob_try :: "worker_config \<Rightarrow> job_env \<Rightarrow> AnalysisJobData \<Rightarrow> world
                              \<Rightarrow> (string + unit) \<times> world" where
  "processJob_try cfg env job w =
     (let pid = projectId job in
      thenDo (updateProgress env (progressOf pid queued 0 ''Job queued'')
                (emitStarted env pid (projectName job) w))
        (\<lambda>_ w.
      thenDo (validateProjectPath env (projectPath job), w)
        (\<lambda>_ w.
      thenDo (mtime_stat env, w)
        (\<lambda>lastModified w.
      if \<not> forceRefresh job then
        thenDo (updateProgress env (progressOf pid extracting 10 ''Checking cache'') w)
          (\<lambda>_ w.
             case cache_get (cfg_platform cfg) (cache_get_io env) (projectPath job) lastModified
                    (cache_store w) of
               (Some cached, store') \<Rightarrow>
                 serveFromCache env pid (ca_result cached) (w\<lparr> cache_store := store' \<rparr>)
             | (None, store') \<Rightarrow>
                 analyzeFresh cfg env job lastModified
                   (w\<lparr> cache_store := store',
                       worker_stats := (worker_stats w)\<lparr> cacheMisses := cacheMisses (worker_stats w) + 1 \<rparr> \<rparr>))
      else analyzeFresh cfg env job lastModified w))))"

text \<open>
  \<open>processJob\<close>: the \<open>catch\<close> counts the failure, publishes \<open>analysis:failed\<close>, reports the
  failed progress (which may itself throw) and rethrows.
\<close>

definition processJob :: "worker_config \<Rightarrow> job_env \<Rightarrow> AnalysisJobData \<Rightarrow> world
                          \<Rightarrow> (string + unit) \<times> world" where
  "processJob cfg env job w =
     (case processJob_try cfg env job w of
        (Inr u, w') \<Rightarrow> (Inr u, w')
      | (Inl err, w') \<Rightarrow>
          thenDo (updateProgress env
                    \<lparr> jp_projectId = projectId job, jp_status = failed, jp_progress = 0,
                      jp_message = None, jp_error = Some err \<rparr>
                    (emitFailed env (projectId job) err
                       (w'\<lparr> worker_stats := (worker_stats w')\<lparr> jobsFailed := jobsFailed (worker_stats w') + 1 \<rparr> \<rparr>)))
            (\<lambda>_ w''. (Inl err, w'')))"

subsection \<open>Reading the bus\<close>

text \<open>
  What the ordering claims look at in an event: its type and, for a progress event, the
  status it reports. \<open>emitted w0 w1\<close> are the events handed to the bus between two states.
\<close>

definition event_shape :: "WebSocketEvent \<Rightarrow> event_type \<times> job_status option" where
  "event_shape ev =
     (ev_type ev, case ev_data ev of ProgressData p \<Rightarrow> Some (jp_status p) | _ \<Rightarrow> None)"

definition emitted :: "world \<Rightarrow> world \<Rightarrow> (event_type \<times> job_status option) list" where
  "emitted w0 w1 = map (event_shape \<circ> fst) (drop (length (bus_log w0)) (bus_log w1))"

text \<open>
  The progress statuses reported while a job is under way, the shape of a run of progress
  events, and the bus of one state extending that of another by events of given shapes.
\<close>

definition in_flight :: "job_status \<Rightarrow> bool" where
  "in_flight s = (s = queued \<or> s = extracting \<or> s = analyzing \<or> s = caching)"

definition progress_shapes :: "job_status list \<Rightarrow> (event_type \<times> job_status option) list" where
  "progress_shapes ps = map (\<lambda>s. (analysis_progress, Some s)) ps"

definition extends_by :: "world \<Rightarrow> world \<Rightarrow> (event_type \<times> job_status option) list \<Rightarrow> bool" where
  "extends_by w w' xs = (\<exists>es. bus_log w' = bus_log w @ es \<and> map (event_shape \<circ> fst) es = xs)"


definition try_post :: "world \<Rightarrow> (string + 'a) \<times> world \<Rightarrow> bool" where
  "try_post w rw =
     (\<exists>ps. list_all in_flight ps \<and>
        (if isl (fst rw)
         then extends_by w (snd rw) (progress_shapes ps)
              \<or> extends_by w (snd rw) (progress_shapes ps @ [(analysis_completed, None)])
         else extends_by w (snd rw)
                (progress_shapes ps @ [(analysis_completed, None), (analysis_progress, Some completed)])))"

text \<open>
  The invariant of the data model: a project in state ANALYZED has its \<open>analyzedAt\<close> set
  and owns at least one Analysis.
\<close>

definition db_invariant :: "world \<Rightarrow> bool" where
  "db_invariant w =
     (\<forall>pid row. projects w pid = Some row \<and> pr_status row = ANALYZED
        \<longrightarrow> pr_analyzedAt row \<noteq> None \<and> (\<exists>a \<in> set (analyses w). an_projectId a = pid))"

subsection \<open>A worked example\<close>

definition sampleMetadata :: AnalysisMetadata where
  "sampleMetadata =
     \<lparr> md_model = ''claude-sonnet-4-5'', md_tokensUsed = 1200, md_cacheHit = False,
       md_cacheRead = Some 0, md_cacheCreation = Some 900, md_duration = 4000,
       md_timestamp = 0 \<rparr>"

definition sampleResult :: AnalysisResult where
  "sampleResult =
     \<lparr> ar_projectId = ''p1'', ar_summary = ''A demo'', ar_techStack = ''{}'',
       ar_complexity = ''simple'', ar_recommendations = ''[]'', ar_completionScore = 40,
       ar_maturityLevel = ''poc'', ar_productionGaps = ''[]'', ar_estimatedValue = ''{}'',
       ar_metadata = sampleMetadata \<rparr>"

definition sampleJob :: AnalysisJobData where
  "sampleJob =
     \<lparr> projectId = ''p1'', projectPath = ''/projects/demo'', projectName = ''demo'',
       priority = None, forceRefresh = False \<rparr>"

definition sampleConfig :: worker_config where
  "sampleConfig = \<lparr> cfg_platform = samplePlatform, cfg_cacheTTL = 86400 \<rparr>"

definition sampleStats :: WorkerStats where
  "sampleStats =
     \<lparr> jobsProcessed = 0, jobsFailed = 0, cacheHits = 0, cacheMisses = 0, totalTokensUsed = 0,
       averageDuration = 0 \<rparr>"

text \<open>A database holding the project \<open>p1\<close> in state ANALYZING, an empty bus, the given cache.\<close>

definition sampleWorld :: "AnalysisResult redis \<Rightarrow> world" where
  "sampleWorld store =
     \<lparr> bus_log = [], job_progress = None,
       projects = [''p1'' \<mapsto> \<lparr> pr_status = ANALYZING, pr_analyzedAt = None, pr_fileCount = Some 7,
                               pr_linesOfCode = Some 300, pr_size = Some 9000 \<rparr>],
       analyses = [], cache_store = store, worker_stats = sampleStats \<rparr>"

text \<open>An outside where every call succeeds, with the clocks at the given instant.\<close>

definition calmEnv :: "int \<Rightarrow> job_env" where
  "calmEnv t =
     \<lparr> publish_ok = (\<lambda>_. True), job_update_error = (\<lambda>_. None), validate_stat = ADirectory,
       mtime_stat = Inr 0, cache_get_io = io_at t t, cache_set_io = io_at t t,
       extract_outcome = Inr \<lparr> ctx_fileCount = 12, ctx_linesOfCode = 450, ctx_totalSize = 20000 \<rparr>,
       analyze_outcome = Inr sampleResult, db_error = (\<lambda>_. None), db_now = t, duration = 5000 \<rparr>"

text \<open>The cache after the first analysis of \<open>/projects/demo\<close> stored \<open>sampleResult\<close> at instant 0.\<close>

definition warmCache :: "AnalysisResult redis" where
  "warmCache = snd (cache_set samplePlatform 86400 (io_at 0 0) ''/projects/demo'' 0 sampleResult Map.empty)"

text \<open>The same outside, except that the status update of \<open>saveToDatabase\<close> fails.\<close>

definition updateFailsEnv :: "int \<Rightarrow> job_env" where
  "updateFailsEnv t =
     (calmEnv t)\<lparr> db_error := (\<lambda>op. if op = UpdateProjectStatus then Some ''Connection lost'' else None) \<rparr>"

section \<open>The debouncer (file-watcher/src/utils/debounce.ts)\<close>

record 'a DebouncedEvent =
  de_key :: string
  de_data :: 'a
  de_timestamp :: int

text \<open>
  A \<open>Debouncer\<close> in its runtime: the two maps of the class, and of the runtime the clock
  (milliseconds), the timers that are set (handle, due time, and the key its closure
  captured, in the order they were set) and the next fresh handle. \<open>delivered\<close> records
  each invocation of the user's callback with the clock at that moment.
\<close>

record 'a debouncer =
  timers :: "string \<rightharpoonup> nat"
  pendingEvents :: "string \<rightharpoonup> 'a DebouncedEvent"
  clock :: int
  timer_queue :: "(nat \<times> int \<times> string) list"
  next_handle :: nat
  delivered :: "('a DebouncedEvent \<times> int) list"

definition new_debouncer :: "int \<Rightarrow> 'a debouncer" where
  "new_debouncer t0 =
     \<lparr> timers = Map.empty, pendingEvents = Map.empty, clock = t0, timer_queue = [],
       next_handle = 0, delivered = [] \<rparr>"

text \<open>
  \<open>setTimeout\<close> and \<open>clearTimeout\<close> of the runtime. Node replaces a delay below 1 ms or
  above \<open>2^31 - 1\<close> ms by 1 ms.
\<close>

definition TIMEOUT_MAX :: int where
  "TIMEOUT_MAX = 2147483647"

definition timeout_after :: "int \<Rightarrow> int" where
  "timeout_after delay = (if delay < 1 \<or> TIMEOUT_MAX < delay then 1 else delay)"

definition setTimeout :: "int \<Rightarrow> string \<Rightarrow> 'a debouncer \<Rightarrow> nat \<times> 'a debouncer" where
  "setTimeout delay key s =
     (next_handle s,
      s\<lparr> timer_queue := timer_queue s @ [(next_handle s, clock s + timeout_after delay, key)],
         next_handle := next_handle s + 1 \<rparr>)"

definition clearTimeout :: "nat \<Rightarrow> 'a debouncer \<Rightarrow> 'a debouncer" where
  "clearTimeout h s = s\<lparr> timer_queue := filter (\<lambda>(h', due, key). h' \<noteq> h) (timer_queue s) \<rparr>"

text \<open>\<open>Debouncer.debounce\<close>.\<close>

definition debounce :: "int \<Rightarrow> string \<Rightarrow> 'a \<Rightarrow> 'a debouncer \<Rightarrow> 'a debouncer" where
  "debounce delay key data s =
     (let s1 = (case timers s key of Some existingTimer \<Rightarrow> clearTimeout existingTimer s | None \<Rightarrow> s);
          s2 = s1\<lparr> pendingEvents := (pendingEvents s1)(key \<mapsto>
                     \<lparr> de_key = key, de_data = data, de_timestamp = clock s1 \<rparr>) \<rparr>;
          (timer, s3) = setTimeout delay key s2
      in s3\<lparr> timers := (timers s3)(key \<mapsto> timer) \<rparr>)"

text \<open>The closure \<open>debounce\<close> hands to \<open>setTimeout\<close>, run when the timer fires.\<close>

definition on_timeout :: "string \<Rightarrow> 'a debouncer \<Rightarrow> 'a debouncer" where
  "on_timeout key s =
     (case pendingEvents s key of
        Some event \<Rightarrow>
          s\<lparr> delivered := delivered s @ [(event, clock s)],
             pendingEvents := (pendingEvents s)(key := None),
             timers := (timers s)(key := None) \<rparr>
      | None \<Rightarrow> s)"

text \<open>
  The event loop up to instant \<open>t\<close>: as long as a timer is due by then, the earliest such
  timer (the first set, among equals) leaves the queue and its closure runs, the clock
  standing at its due time or later.
\<close>

fun earliest :: "(nat \<times> int \<times> string) list \<Rightarrow> (nat \<times> int \<times> string) option" where
  "earliest [] = None"
| "earliest (x # xs) =
     (case earliest xs of
        None \<Rightarrow> Some x
      | Some y \<Rightarrow> if fst (snd y) < fst (snd x) then Some y else Some x)"

definition next_due :: "int \<Rightarrow> (nat \<times> int \<times> string) list \<Rightarrow> (nat \<times> int \<times> string) option" where
  "next_due t q = earliest (filter (\<lambda>(h, due, key). due \<le> t) q)"

function run_timers :: "int \<Rightarrow> 'a debouncer \<Rightarrow> 'a debouncer" where
  "run_timers t s =
     (case next_due t (timer_queue s) of
        None \<Rightarrow> s\<lparr> clock := max (clock s) t \<rparr>
      | Some (h, due, key) \<Rightarrow>
          run_timers t
            (on_timeout key
               ((clearTimeout h s)\<lparr> clock := max (clock s) due \<rparr>)))"
  by pat_completeness auto

text \<open>Each round takes a timer off the queue, so the loop ends.\<close>

lemma earliest_mem: "earliest q = Some x \<Longrightarrow> x \<in> set q"
  by (induction q arbitrary: x) (auto split: option.splits if_splits)

lemma next_due_mem: "next_due t q = Some x \<Longrightarrow> x \<in> set q"
  unfolding next_due_def using earliest_mem by fastforce

lemma on_timeout_queue: "timer_queue (on_timeout key s) = timer_queue s"
  by (simp add: on_timeout_def split: option.splits)

termination run_timers
proof (relation "measure (\<lambda>(t, s). length (timer_queue s))")
  show "wf (measure (\<lambda>(t, s :: 'a debouncer). length (timer_queue s)))" by simp
next
  fix t :: int and s :: "'a debouncer" and x2 h y due key
  assume "next_due t (timer_queue s) = Some x2" "(h, y) = x2" "(due, key) = y"
  then have "(h, due, key) \<in> set (timer_queue s)" using next_due_mem by fastforce
  then have "length (filter (\<lambda>(h', due, key). h' \<noteq> h) (timer_queue s)) < length (timer_queue s)"
    by (intro length_filter_less [of "(h, due, key)"]) simp_all
  then show "((t, on_timeout key ((clearTimeout h s)\<lparr>clock := max (clock s) due\<rparr>)), (t, s))
             \<in> measure (\<lambda>(t, s). length (timer_queue s))"
    by (simp add: on_timeout_queue clearTimeout_def)
qed

subsection \<open>Runs of a debouncer\<close>

text \<open>
  What acts on a debouncer: a call \<open>debounce(key, data)\<close>, or time passing, during which
  the event loop runs the timers that come due. A run is observed as the calls made (with
  the clock at the call) and the callback's invocations (with the clock at the invocation),
  in the order they happen.
\<close>

datatype 'a action = Debounce string 'a | Elapse nat

datatype 'a observation = Called string 'a int | Fired "'a DebouncedEvent" int

fun obs_key :: "'a observation \<Rightarrow> string" where
  "obs_key (Called k d t) = k"
| "obs_key (Fired ev t) = de_key ev"

fun obs_time :: "'a observation \<Rightarrow> int" where
  "obs_time (Called k d t) = t"
| "obs_time (Fired ev t) = t"

fun exec :: "int \<Rightarrow> 'a action \<Rightarrow> 'a debouncer \<times> 'a observation list
               \<Rightarrow> 'a debouncer \<times> 'a observation list" where
  "exec delay (Debounce k d) (s, tr) = (debounce delay k d s, tr @ [Called k d (clock s)])"
| "exec delay (Elapse n) (s, tr) =
     (let s' = run_timers (clock s + int n) s
      in (s', tr @ map (\<lambda>(ev, t). Fired ev t) (drop (length (delivered s)) (delivered s'))))"

definition run :: "int \<Rightarrow> int \<Rightarrow> 'a action list \<Rightarrow> 'a debouncer \<times> 'a observation list" where
  "run delay t0 acts = foldl (\<lambda>st a. exec delay a st) (new_debouncer t0, []) acts"

text \<open>
  The observations of one key form bursts: calls, then at most one invocation of the
  callback, which carries the event of the call just before it (its key, its data, its
  instant) and comes no earlier than \<open>delay\<close> after that call.
\<close>

fun bursts :: "int \<Rightarrow> 'a observation list \<Rightarrow> bool" where
  "bursts delay [] = True"
| "bursts delay (Fired ev t # rest) = False"
| "bursts delay [Called k d tc] = True"
| "bursts delay (Called k d tc # Called k' d' tc' # rest) = bursts delay (Called k' d' tc' # rest)"
| "bursts delay (Called k d tc # Fired ev tf # rest) =
     (ev = \<lparr> de_key = k, de_data = d, de_timestamp = tc \<rparr> \<and> tc + delay \<le> tf \<and> bursts delay rest)"

text \<open>
  The state a run keeps: a key without a pending event has no timer; a key with a pending
  event has exactly one timer in the queue, the one in \<open>timers\<close>, due \<open>delay\<close> after the
  event's instant; handles are distinct and below the next fresh one.
\<close>

definition timers_of :: "string \<Rightarrow> 'a debouncer \<Rightarrow> (nat \<times> int \<times> string) list" where
  "timers_of k s = filter (\<lambda>(h, due, key). key = k) (timer_queue s)"

definition deb_invariant :: "int \<Rightarrow> 'a debouncer \<Rightarrow> bool" where
  "deb_invariant delay s =
     ((\<forall>k. pendingEvents s k = None \<longrightarrow> timers s k = None \<and> timers_of k s = [])
      \<and> (\<forall>k ev. pendingEvents s k = Some ev \<longrightarrow>
             de_key ev = k \<and> de_timestamp ev \<le> clock s
             \<and> (\<exists>h. timers s k = Some h \<and> timers_of k s = [(h, de_timestamp ev + delay, k)]))
      \<and> distinct (map fst (timer_queue s))
      \<and> (\<forall>x \<in> set (timer_queue s). fst x < next_handle s))"

text \<open>How the observations of a run relate to the state it has reached.\<close>

definition trace_invariant :: "int \<Rightarrow> 'a debouncer \<Rightarrow> 'a observation list \<Rightarrow> bool" where
  "trace_invariant delay s tr =
     ((\<forall>k. bursts delay (filter (\<lambda>ob. obs_key ob = k) tr))
      \<and> (\<forall>k ev. pendingEvents s k = Some ev \<longrightarrow>
             filter (\<lambda>ob. obs_key ob = k) tr \<noteq> []
             \<and> last (filter (\<lambda>ob. obs_key ob = k) tr) = Called k (de_data ev) (de_timestamp ev))
      \<and> sorted (map obs_time tr)
      \<and> (\<forall>ob \<in> set tr. obs_time ob \<le> clock s)
      \<and> concat (map (\<lambda>ob. case ob of Fired ev t \<Rightarrow> [(ev, t)] | _ \<Rightarrow> []) tr) = delivered s)"

section \<open>The rate-limited executor (class \<open>RateLimiter\<close>)\<close>
























chapter \<open>Properties\<close>

section \<open>The analysis queue\<close>

text \<open>
  C5. The claim: the analysis queue is created with a default retry policy of exactly one
  attempt per job, keeping the last 100 completed jobs for 24 hours and the last 500
  failed ones. The retention figures are those of both queue objects. The attempts are
  not: the worker's \<open>QueueManager\<close> sets one attempt, but the backend's
  \<open>AnalysisQueueClient\<close>, through which every job is enqueued, sets three attempts with an
  exponential backoff of 2000 ms, and each job it adds inherits these.
\<close>

theorem AnalysisQueueClient_attempts:
  "attempts (defaultJobOptions AnalysisQueueClient_initialize) = 3
   \<and> backoff (defaultJobOptions AnalysisQueueClient_initialize)
       = Some \<lparr> backoff_type = exponential, backoff_delay = 2000 \<rparr>
   \<and> removeOnComplete (defaultJobOptions AnalysisQueueClient_initialize)
       = Some \<lparr> keep_count = 100, keep_age = Some 86400 \<rparr>
   \<and> removeOnFail (defaultJobOptions AnalysisQueueClient_initialize)
       = Some \<lparr> keep_count = 500, keep_age = None \<rparr>
   \<and> attempts (defaultJobOptions QueueManager_queue) = 1
   \<and> (\<exists>j. addAnalysisJob (Some AnalysisQueueClient_initialize) stamp data = Inr j
            \<and> attempts (job_opts j) = 3)"
  by (simp add: AnalysisQueueClient_initialize_def QueueManager_queue_def addAnalysisJob_def)

section \<open>The project validator\<close>













section \<open>The context extractor\<close>





section \<open>The result cache\<close>




section \<open>The worker processor\<close>

subsection \<open>The order of a job's events\<close>



lemma extends_by_start: "bus_log w1 = bus_log w \<Longrightarrow> extends_by w1 w' xs \<Longrightarrow> extends_by w w' xs"
  by (simp add: extends_by_def)










lemma extends_by_same_start: "bus_log w1 = bus_log w \<Longrightarrow> extends_by w1 = extends_by w"
  by (rule ext)+ (simp add: extends_by_def)

lemma try_post_start:
  assumes "bus_log w1 = bus_log w" "try_post w1 rw"
  shows "try_post w rw"
  using assms(2) unfolding try_post_def extends_by_same_start [OF assms(1)] .









subsection \<open>What a cache hit writes\<close>

lemma updateProgress_db:
  "projects (snd (updateProgress env p w)) = projects w"
  "analyses (snd (updateProgress env p w)) = analyses w"
  "cache_store (snd (updateProgress env p w)) = cache_store w"
  by (simp_all add: updateProgress_def emitProgress_def emit_def split: option.splits)










subsection \<open>The flag of a row written on a cache hit\<close>

text \<open>
  C4. The claim: a job served from the result cache persists an Analysis row with
  \<open>cacheHit = true\<close>. The processor hands the cached result to \<open>saveToDatabase\<close> as it was
  stored, and the row takes \<open>result.metadata.cacheHit\<close>, the flag the analyzer set from the
  provider's prompt-cache counter when the result was first computed. In the worked
  example that flag is false: the job is served from the cache (no extraction, no
  analysis) and the row it persists carries \<open>cacheHit = false\<close>.
\<close>

theorem processJob_cache_hit_row:
  "emitted (sampleWorld warmCache)
       (snd (processJob sampleConfig (calmEnv 5) sampleJob (sampleWorld warmCache)))
     = [(analysis_started, None), (analysis_progress, Some queued),
        (analysis_progress, Some extracting), (analysis_completed, None),
        (analysis_progress, Some completed)]
   \<and> analyses (snd (processJob sampleConfig (calmEnv 5) sampleJob (sampleWorld warmCache)))
     = [toAnalysisRow sampleResult]
   \<and> an_cacheHit (toAnalysisRow sampleResult) = False
   \<and> cacheHits (worker_stats (snd (processJob sampleConfig (calmEnv 5) sampleJob (sampleWorld warmCache)))) = 1"
  by (simp add: emitted_def processJob_def processJob_try_def serveFromCache_def thenDo_def
      updateProgress_def emitProgress_def emit_def emitStarted_def emitCompleted_def
      saveToDatabase_def projectAnalysis_create_def project_update_def updateStats_def
      progressOf_def validateProjectPath_def sampleWorld_def calmEnv_def sampleJob_def
      sampleConfig_def sampleResult_def sampleMetadata_def sampleStats_def warmCache_def
      cache_get_def cache_set_def redis_get_def redis_setex_def io_at_def samplePlatform_def
      generateCacheKey_def toAnalysisRow_def event_shape_def Let_def)

subsection \<open>The two writes of \<open>saveToDatabase\<close>\<close>

text \<open>
  C2. The claim: the Analysis row is inserted and the project set to ANALYZED atomically,
  in a single transaction. \<open>saveToDatabase\<close> awaits two separate statements. When the
  insert goes through and the update fails (here: the connection is lost between the
  two), the call throws and the project is still ANALYZING, yet the Analysis row stays.
\<close>

theorem saveToDatabase_partial_write:
  "saveToDatabase (updateFailsEnv 5) sampleResult (sampleWorld Map.empty)
     = (Inl ''Connection lost'', (sampleWorld Map.empty)\<lparr> analyses := [toAnalysisRow sampleResult] \<rparr>)
   \<and> map_option pr_status (projects (sampleWorld Map.empty) ''p1'') = Some ANALYZING"
  by (simp add: saveToDatabase_def thenDo_def projectAnalysis_create_def project_update_def
      updateFailsEnv_def calmEnv_def sampleWorld_def sampleResult_def toAnalysisRow_def)

text \<open>
  The order of the two statements does keep a reader from seeing ANALYZED without an
  Analysis: every state \<open>saveToDatabase\<close> passes through satisfies the invariant if the
  state it started from does.
\<close>

lemma saveToDatabase_keeps_invariant:
  assumes "db_invariant w"
  shows "db_invariant (snd (projectAnalysis_create env (toAnalysisRow res) w))
         \<and> db_invariant (snd (saveToDatabase env res w))"
  using assms
  by (auto simp: db_invariant_def saveToDatabase_def thenDo_def projectAnalysis_create_def
      project_update_def toAnalysisRow_def split: option.splits if_splits)

section \<open>The debouncer\<close>

lemma bursts_snoc_called: "bursts delay xs \<Longrightarrow> bursts delay (xs @ [Called k d t])"
  by (induction delay xs rule: bursts.induct) auto

lemma bursts_snoc_fired:
  "bursts delay xs \<Longrightarrow> xs \<noteq> [] \<Longrightarrow> last xs = Called k d tc \<Longrightarrow> tc + delay \<le> tf
   \<Longrightarrow> bursts delay (xs @ [Fired \<lparr> de_key = k, de_data = d, de_timestamp = tc \<rparr> tf])"
  by (induction delay xs rule: bursts.induct) (auto split: if_splits)

lemma same_handle:
  assumes "distinct (map fst q)" "(h, a) \<in> set q" "(h, b) \<in> set q"
  shows "a = b"
  using assms by (meson eq_key_imp_eq_value)

lemma timers_of_clear:
  "timers_of k (clearTimeout h s) = filter (\<lambda>(h', due, key). h' \<noteq> h) (timers_of k s)"
  by (auto simp: timers_of_def clearTimeout_def intro: filter_cong)

text \<open>Removing the timer of one key leaves the timers of every other key alone.\<close>

lemma timers_of_clear_other:
  assumes d: "distinct (map fst (timer_queue s))" and x: "(h, due, key) \<in> set (timer_queue s)"
    and ne: "k \<noteq> key"
  shows "timers_of k (clearTimeout h s) = timers_of k s"
proof -
  have "\<And>y. y \<in> set (timers_of k s) \<Longrightarrow> fst y \<noteq> h"
  proof
    fix y assume y: "y \<in> set (timers_of k s)" and e: "fst y = h"
    obtain a d' c where yc: "y = (a, d', c)" by (cases y) auto
    have "c = k" "a = h" "y \<in> set (timer_queue s)" using y e unfolding yc timers_of_def by auto
    then have "(h, d', k) \<in> set (timer_queue s)" using yc by simp
    from same_handle [OF d this x] ne show False by simp
  qed
  then show ?thesis
    unfolding timers_of_clear by (intro filter_True) fastforce
qed

lemma fire_step:
  assumes inv: "deb_invariant delay s" and tr: "trace_invariant delay s tr"
    and x: "(h, due, key) \<in> set (timer_queue s)"
  shows "\<exists>ev. pendingEvents s key = Some ev
           \<and> delivered (on_timeout key ((clearTimeout h s)\<lparr>clock := max (clock s) due\<rparr>))
               = delivered s @ [(ev, max (clock s) due)]
           \<and> deb_invariant delay (on_timeout key ((clearTimeout h s)\<lparr>clock := max (clock s) due\<rparr>))
           \<and> trace_invariant delay (on_timeout key ((clearTimeout h s)\<lparr>clock := max (clock s) due\<rparr>))
               (tr @ [Fired ev (max (clock s) due)])"
proof -
  let ?s1 = "on_timeout key ((clearTimeout h s)\<lparr>clock := max (clock s) due\<rparr>)"
  have xk: "(h, due, key) \<in> set (timers_of key s)" using x by (simp add: timers_of_def)
  then have "pendingEvents s key \<noteq> None" using inv unfolding deb_invariant_def by fastforce
  then obtain ev where ev: "pendingEvents s key = Some ev" by blast
  from inv ev obtain h' where evk: "de_key ev = key" and evt: "de_timestamp ev \<le> clock s"
    and tk: "timers s key = Some h'" and tq: "timers_of key s = [(h', de_timestamp ev + delay, key)]"
    unfolding deb_invariant_def by blast
  from xk tq have hd: "h' = h" "due = de_timestamp ev + delay" by auto
  have dist: "distinct (map fst (timer_queue s))" using inv unfolding deb_invariant_def by blast
  have s1: "pendingEvents ?s1 = (pendingEvents s)(key := None)"
    "timers ?s1 = (timers s)(key := None)"
    "timer_queue ?s1 = timer_queue (clearTimeout h s)"
    "clock ?s1 = max (clock s) due"
    "next_handle ?s1 = next_handle s"
    "delivered ?s1 = delivered s @ [(ev, max (clock s) due)]"
    using ev by (simp_all add: on_timeout_def clearTimeout_def)
  have tof: "timers_of k ?s1 = timers_of k (clearTimeout h s)" for k
    by (simp add: timers_of_def s1)
  have tkey: "timers_of key ?s1 = []"
    using tof [of key] timers_of_clear [of key h s] tq hd(1) by simp
  have tother: "k \<noteq> key \<Longrightarrow> timers_of k ?s1 = timers_of k s" for k
    unfolding tof using timers_of_clear_other [OF dist x] by blast
  have I1: "timers ?s1 k = None \<and> timers_of k ?s1 = []" if "pendingEvents ?s1 k = None" for k
    using that inv tkey tother unfolding deb_invariant_def s1 by (cases "k = key") auto
  have I2: "de_key e = k \<and> de_timestamp e \<le> clock ?s1
         \<and> (\<exists>h. timers ?s1 k = Some h \<and> timers_of k ?s1 = [(h, de_timestamp e + delay, k)])"
    if a: "pendingEvents ?s1 k = Some e" for k e
  proof -
    from a have ne: "k \<noteq> key" and p: "pendingEvents s k = Some e"
      unfolding s1 by (auto split: if_splits)
    from inv p obtain hk where "de_key e = k" "de_timestamp e \<le> clock s" "timers s k = Some hk"
      "timers_of k s = [(hk, de_timestamp e + delay, k)]"
      unfolding deb_invariant_def by blast
    then show ?thesis using ne tother [OF ne] unfolding s1 by auto
  qed
  have q1: "timer_queue ?s1 = filter (\<lambda>(h', due, key). h' \<noteq> h) (timer_queue s)"
    unfolding s1(3) by (simp add: clearTimeout_def)
  have I3: "distinct (map fst (timer_queue ?s1))"
    unfolding q1 using dist by (rule distinct_map_filter)
  have I4: "\<forall>x \<in> set (timer_queue ?s1). fst x < next_handle ?s1"
    unfolding q1 s1(5) using inv unfolding deb_invariant_def by auto
  have I: "deb_invariant delay ?s1"
    unfolding deb_invariant_def using I1 I2 I3 I4 by blast
  let ?f = "Fired ev (max (clock s) due)"
  have evrec: "ev = \<lparr> de_key = key, de_data = de_data ev, de_timestamp = de_timestamp ev \<rparr>"
    using evk by simp
  have T1: "bursts delay (filter (\<lambda>ob. obs_key ob = k) (tr @ [?f]))" for k
  proof (cases "k = key")
    case True
    have b: "bursts delay (filter (\<lambda>ob. obs_key ob = key) tr)"
      and l: "filter (\<lambda>ob. obs_key ob = key) tr \<noteq> []"
        "last (filter (\<lambda>ob. obs_key ob = key) tr) = Called key (de_data ev) (de_timestamp ev)"
      using tr ev unfolding trace_invariant_def by blast+
    have "bursts delay (filter (\<lambda>ob. obs_key ob = key) tr
            @ [Fired \<lparr> de_key = key, de_data = de_data ev, de_timestamp = de_timestamp ev \<rparr>
                 (max (clock s) due)])"
      by (rule bursts_snoc_fired [OF b l]) (simp add: hd)
    then show ?thesis using True evk evrec by simp
  next
    case False
    then show ?thesis using tr evk unfolding trace_invariant_def by simp
  qed
  have T2: "filter (\<lambda>ob. obs_key ob = k) (tr @ [?f]) \<noteq> []
      \<and> last (filter (\<lambda>ob. obs_key ob = k) (tr @ [?f])) = Called k (de_data e) (de_timestamp e)"
    if a: "pendingEvents ?s1 k = Some e" for k e
  proof -
    from a have ne: "k \<noteq> key" and p: "pendingEvents s k = Some e"
      unfolding s1 by (auto split: if_splits)
    have fk: "filter (\<lambda>ob. obs_key ob = k) (tr @ [?f]) = filter (\<lambda>ob. obs_key ob = k) tr"
      using ne evk by simp
    show ?thesis unfolding fk using tr p unfolding trace_invariant_def by blast
  qed
  have T3: "sorted (map obs_time (tr @ [?f]))"
    using tr unfolding trace_invariant_def by (auto simp: sorted_append)
  have T4: "\<forall>ob \<in> set (tr @ [?f]). obs_time ob \<le> clock ?s1"
    using tr unfolding trace_invariant_def s1 by auto
  have T5: "concat (map (\<lambda>ob. case ob of Fired ev t \<Rightarrow> [(ev, t)] | _ \<Rightarrow> []) (tr @ [?f])) = delivered ?s1"
    using tr unfolding trace_invariant_def s1 by simp
  have T: "trace_invariant delay ?s1 (tr @ [?f])"
    unfolding trace_invariant_def using T1 T2 T3 T4 T5 by blast
  from ev s1(6) I T show ?thesis by blast
qed


lemma clock_raise:
  assumes "deb_invariant delay s" "trace_invariant delay s tr" "clock s \<le> c"
  shows "deb_invariant delay (s\<lparr>clock := c\<rparr>)" "trace_invariant delay (s\<lparr>clock := c\<rparr>) tr"
proof -
  have t: "timers_of k (s\<lparr>clock := c\<rparr>) = timers_of k s" for k by (simp add: timers_of_def)
  show "deb_invariant delay (s\<lparr>clock := c\<rparr>)"
    using assms(1,3) unfolding deb_invariant_def t by fastforce
  show "trace_invariant delay (s\<lparr>clock := c\<rparr>) tr"
    using assms(2,3) unfolding trace_invariant_def by fastforce
qed

lemma run_timers_inv:
  "deb_invariant delay s \<Longrightarrow> trace_invariant delay s tr \<Longrightarrow>
   deb_invariant delay (run_timers t s)
   \<and> trace_invariant delay (run_timers t s)
       (tr @ map (\<lambda>(ev, t). Fired ev t) (drop (length (delivered s)) (delivered (run_timers t s))))
   \<and> (\<exists>ds. delivered (run_timers t s) = delivered s @ ds)"
proof (induction t s arbitrary: tr rule: run_timers.induct)
  case (1 t s)
  show ?case
  proof (cases "next_due t (timer_queue s)")
    case None
    then have r: "run_timers t s = s\<lparr>clock := max (clock s) t\<rparr>"
      by (subst run_timers.simps) simp
    show ?thesis
      unfolding r using clock_raise [OF "1.prems", of "max (clock s) t"] by simp
  next
    case (Some x)
    obtain h due key where x: "x = (h, due, key)" by (cases x) auto
    let ?s1 = "on_timeout key ((clearTimeout h s)\<lparr>clock := max (clock s) due\<rparr>)"
    have r: "run_timers t s = run_timers t ?s1"
      using Some x by (subst run_timers.simps) simp
    have mem: "(h, due, key) \<in> set (timer_queue s)" using Some x next_due_mem by fastforce
    from fire_step [OF "1.prems" mem] obtain ev where ev: "pendingEvents s key = Some ev"
      and d1: "delivered ?s1 = delivered s @ [(ev, max (clock s) due)]"
      and i1: "deb_invariant delay ?s1"
      and t1: "trace_invariant delay ?s1 (tr @ [Fired ev (max (clock s) due)])"
      by blast
    from "1.IH" [OF Some x [symmetric] refl i1 t1]
    have ih: "deb_invariant delay (run_timers t ?s1)
       \<and> trace_invariant delay (run_timers t ?s1)
           ((tr @ [Fired ev (max (clock s) due)])
             @ map (\<lambda>(ev, t). Fired ev t) (drop (length (delivered ?s1)) (delivered (run_timers t ?s1))))
       \<and> (\<exists>ds. delivered (run_timers t ?s1) = delivered ?s1 @ ds)"
      by simp
    then obtain ds where ds: "delivered (run_timers t ?s1) = delivered ?s1 @ ds" by blast
    have e: "(tr @ [Fired ev (max (clock s) due)])
             @ map (\<lambda>(ev, t). Fired ev t) (drop (length (delivered ?s1)) (delivered (run_timers t ?s1)))
            = tr @ map (\<lambda>(ev, t). Fired ev t) (drop (length (delivered s)) (delivered (run_timers t ?s1)))"
      unfolding ds d1 by simp
    show ?thesis unfolding r using ih e ds d1 by auto
  qed
qed

lemma debounce_fields:
  "pendingEvents (debounce delay k d s)
     = (pendingEvents s)(k \<mapsto> \<lparr> de_key = k, de_data = d, de_timestamp = clock s \<rparr>)"
  "timers (debounce delay k d s) = (timers s)(k \<mapsto> next_handle s)"
  "clock (debounce delay k d s) = clock s"
  "next_handle (debounce delay k d s) = next_handle s + 1"
  "delivered (debounce delay k d s) = delivered s"
  "timer_queue (debounce delay k d s)
     = (case timers s k of Some h \<Rightarrow> filter (\<lambda>(h', due, key). h' \<noteq> h) (timer_queue s)
                          | None \<Rightarrow> timer_queue s)
       @ [(next_handle s, clock s + timeout_after delay, k)]"
  by (simp_all add: debounce_def setTimeout_def clearTimeout_def Let_def split: option.splits)


lemma debounce_step:
  assumes inv: "deb_invariant delay s" and tr: "trace_invariant delay s tr"
    and lo: "1 \<le> delay" and hi: "delay \<le> TIMEOUT_MAX"
  shows "deb_invariant delay (debounce delay k d s)
         \<and> trace_invariant delay (debounce delay k d s) (tr @ [Called k d (clock s)])
         \<and> timers_of k (debounce delay k d s) = [(next_handle s, clock s + delay, k)]"
proof -
  let ?s' = "debounce delay k d s"
  let ?s0 = "case timers s k of Some h \<Rightarrow> clearTimeout h s | None \<Rightarrow> s"
  let ?new = "(next_handle s, clock s + delay, k)"
  let ?ev = "\<lparr> de_key = k, de_data = d, de_timestamp = clock s \<rparr>"
  have ta: "timeout_after delay = delay" using lo hi by (simp add: timeout_after_def)
  have dist: "distinct (map fst (timer_queue s))"
    and below: "\<forall>x \<in> set (timer_queue s). fst x < next_handle s"
    using inv unfolding deb_invariant_def by blast+
  have q: "timer_queue ?s' = timer_queue ?s0 @ [?new]"
    by (simp add: debounce_fields ta clearTimeout_def split: option.splits)
  have sub: "set (timer_queue ?s0) \<subseteq> set (timer_queue s)"
    by (auto simp: clearTimeout_def split: option.splits)
  have d0: "distinct (map fst (timer_queue ?s0))"
    using dist by (auto simp: clearTimeout_def distinct_map_filter split: option.splits)
  have own: "timers_of k ?s0 = []"
  proof (cases "timers s k")
    case None
    have "pendingEvents s k = None"
    proof (cases "pendingEvents s k")
      case (Some ev)
      then obtain h where "timers s k = Some h" using inv unfolding deb_invariant_def by blast
      with None show ?thesis by simp
    qed simp
    then show ?thesis using None inv unfolding deb_invariant_def by simp
  next
    case (Some h)
    then have "pendingEvents s k \<noteq> None" using inv unfolding deb_invariant_def by fastforce
    then obtain ev where "pendingEvents s k = Some ev" by blast
    then have "timers_of k s = [(h, de_timestamp ev + delay, k)]"
      using Some inv unfolding deb_invariant_def by fastforce
    then show ?thesis using Some by (simp add: timers_of_clear)
  qed
  have other: "timers_of k' ?s0 = timers_of k' s" if ne: "k' \<noteq> k" for k'
  proof (cases "timers s k")
    case None
    then show ?thesis by simp
  next
    case (Some h)
    then have "pendingEvents s k \<noteq> None" using inv unfolding deb_invariant_def by fastforce
    then obtain ev where "pendingEvents s k = Some ev" by blast
    then have "timers_of k s = [(h, de_timestamp ev + delay, k)]"
      using Some inv unfolding deb_invariant_def by fastforce
    then have "(h, de_timestamp ev + delay, k) \<in> set (timers_of k s)" by simp
    then have "(h, de_timestamp ev + delay, k) \<in> set (timer_queue s)"
      unfolding timers_of_def by simp
    from timers_of_clear_other [OF dist this ne] Some show ?thesis by simp
  qed
  have tk: "timers_of k ?s' = [?new]"
    using own by (simp add: timers_of_def q)
  have tk': "timers_of k' ?s' = timers_of k' s" if "k' \<noteq> k" for k'
    using other [OF that] that by (simp add: timers_of_def q)
  have I1: "timers ?s' k' = None \<and> timers_of k' ?s' = []" if "pendingEvents ?s' k' = None" for k'
  proof -
    from that have ne: "k' \<noteq> k" and p: "pendingEvents s k' = None"
      by (auto simp: debounce_fields split: if_splits)
    then show ?thesis using inv tk' [OF ne] unfolding deb_invariant_def by (simp add: debounce_fields)
  qed
  have I2: "de_key e = k' \<and> de_timestamp e \<le> clock ?s'
         \<and> (\<exists>h. timers ?s' k' = Some h \<and> timers_of k' ?s' = [(h, de_timestamp e + delay, k')])"
    if a: "pendingEvents ?s' k' = Some e" for k' e
  proof (cases "k' = k")
    case True
    then have "e = ?ev" using a by (simp add: debounce_fields)
    then show ?thesis using True tk by (simp add: debounce_fields)
  next
    case False
    then have "pendingEvents s k' = Some e" using a by (simp add: debounce_fields)
    then show ?thesis
      using inv False tk' [OF False] unfolding deb_invariant_def by (simp add: debounce_fields)
  qed
  have below0: "\<forall>x \<in> set (timer_queue ?s0). fst x < next_handle s"
    using sub below by blast
  have I3: "distinct (map fst (timer_queue ?s'))"
    unfolding q using d0 below0 by fastforce
  have I4: "\<forall>x \<in> set (timer_queue ?s'). fst x < next_handle ?s'"
    unfolding q using below0 by (fastforce simp: debounce_fields)
  have I: "deb_invariant delay ?s'"
    unfolding deb_invariant_def using I1 I2 I3 I4 by blast
  let ?c = "Called k d (clock s)"
  have T1: "bursts delay (filter (\<lambda>ob. obs_key ob = k') (tr @ [?c]))" for k'
    using tr unfolding trace_invariant_def by (cases "k' = k") (auto intro: bursts_snoc_called)
  have T2: "filter (\<lambda>ob. obs_key ob = k') (tr @ [?c]) \<noteq> []
      \<and> last (filter (\<lambda>ob. obs_key ob = k') (tr @ [?c])) = Called k' (de_data e) (de_timestamp e)"
    if a: "pendingEvents ?s' k' = Some e" for k' e
  proof (cases "k' = k")
    case True
    then have "e = ?ev" using a by (simp add: debounce_fields)
    then show ?thesis using True by simp
  next
    case False
    then have "pendingEvents s k' = Some e" using a by (simp add: debounce_fields)
    then show ?thesis using tr False unfolding trace_invariant_def by simp
  qed
  have T3: "sorted (map obs_time (tr @ [?c]))"
    using tr unfolding trace_invariant_def by (auto simp: sorted_append)
  have T4: "\<forall>ob \<in> set (tr @ [?c]). obs_time ob \<le> clock ?s'"
    using tr unfolding trace_invariant_def by (auto simp: debounce_fields)
  have T5: "concat (map (\<lambda>ob. case ob of Fired ev t \<Rightarrow> [(ev, t)] | _ \<Rightarrow> []) (tr @ [?c])) = delivered ?s'"
    using tr unfolding trace_invariant_def by (simp add: debounce_fields)
  have T: "trace_invariant delay ?s' (tr @ [?c])"
    unfolding trace_invariant_def using T1 T2 T3 T4 T5 by blast
  from I T tk show ?thesis by blast
qed

lemma init_inv:
  "deb_invariant delay (new_debouncer t0)" "trace_invariant delay (new_debouncer t0) []"
  by (simp_all add: deb_invariant_def trace_invariant_def new_debouncer_def timers_of_def)

lemma run_snoc: "run delay t0 (acts @ [a]) = exec delay a (run delay t0 acts)"
  by (simp add: run_def)

lemma run_inv:
  assumes "1 \<le> delay" "delay \<le> TIMEOUT_MAX"
  shows "deb_invariant delay (fst (run delay t0 acts))
         \<and> trace_invariant delay (fst (run delay t0 acts)) (snd (run delay t0 acts))"
proof (induction acts rule: rev_induct)
  case Nil
  show ?case by (simp add: run_def init_inv)
next
  case (snoc a acts)
  obtain s tr where r: "run delay t0 acts = (s, tr)" by (cases "run delay t0 acts")
  with snoc have i: "deb_invariant delay s" and t: "trace_invariant delay s tr" by simp_all
  show ?case
  proof (cases a)
    case (Debounce k d)
    then show ?thesis
      unfolding run_snoc r using debounce_step [OF i t assms, of k d] by simp
  next
    case (Elapse n)
    then show ?thesis
      unfolding run_snoc r using run_timers_inv [OF i t, of "clock s + int n"] by (simp add: Let_def)
  qed
qed


lemma fired_after:
  "bursts delay xs \<Longrightarrow> sorted (map obs_time xs) \<Longrightarrow> \<forall>ob \<in> set xs. T \<le> obs_time ob
   \<Longrightarrow> Fired ev tf \<in> set xs \<Longrightarrow> T + delay \<le> tf"
proof (induction delay xs rule: bursts.induct)
  case (5 delay k d tc ev' tf' rest)
  from "5.prems"(4) consider "Fired ev tf = Fired ev' tf'" | "Fired ev tf \<in> set rest" by auto
  then show ?case
  proof cases
    case 1
    then show ?thesis using "5.prems"(1,3) by auto
  next
    case 2
    have "\<forall>ob \<in> set rest. T \<le> obs_time ob" using "5.prems"(3) by simp
    moreover have "sorted (map obs_time rest)" using "5.prems"(2) by simp
    moreover have "bursts delay rest" using "5.prems"(1) by simp
    ultimately show ?thesis using "5.IH" 2 by blast
  qed
qed auto

lemma fires_spaced:
  "bursts delay xs \<Longrightarrow> sorted (map obs_time xs)
   \<Longrightarrow> sorted_wrt (\<lambda>a b. a + delay \<le> b)
         (concat (map (\<lambda>ob. case ob of Fired ev t \<Rightarrow> [t] | _ \<Rightarrow> []) xs))"
proof (induction delay xs rule: bursts.induct)
  case (5 delay k d tc ev tf rest)
  have b: "bursts delay rest" and s: "sorted (map obs_time rest)"
    and ge: "\<forall>ob \<in> set rest. tf \<le> obs_time ob"
    using "5.prems" by auto
  have "tf + delay \<le> t'"
    if "t' \<in> set (concat (map (\<lambda>ob. case ob of Fired ev t \<Rightarrow> [t] | _ \<Rightarrow> []) rest))" for t'
  proof -
    from that obtain ob where "ob \<in> set rest" "t' \<in> set (case ob of Fired ev t \<Rightarrow> [t] | _ \<Rightarrow> [])"
      by auto
    then obtain ev' where "Fired ev' t' \<in> set rest" by (cases ob) auto
    from fired_after [OF b s ge this] show ?thesis .
  qed
  then show ?case using "5.IH" b s by simp
qed auto

lemma fires_of_key:
  "concat (map (\<lambda>ob. case ob of Fired ev t \<Rightarrow> [t] | _ \<Rightarrow> []) (filter (\<lambda>ob. obs_key ob = k) tr))
   = map snd (filter (\<lambda>(ev, t). de_key ev = k)
       (concat (map (\<lambda>ob. case ob of Fired ev t \<Rightarrow> [(ev, t)] | _ \<Rightarrow> []) tr)))"
proof (induction tr)
  case (Cons ob tr)
  then show ?case by (cases ob) auto
qed simp

text \<open>
  C7. For a debounce delay that the runtime takes as it is (from 1 ms to \<open>2^31 - 1\<close> ms),
  for every key and every sequence of \<open>debounce\<close> calls with time passing in between:
  the observations of the key are bursts of calls, each followed by at most one
  invocation of the callback, which delivers the data of the most recent call and comes
  no earlier than \<open>delay\<close> after it; the invocations for one key are at least \<open>delay\<close>
  apart; and a new call for the key leaves exactly one timer for the key in the queue, due
  \<open>delay\<close> after the call, the timer that was pending for the key being cancelled.
\<close>

theorem debounce_once_per_window:
  assumes "1 \<le> delay" "delay \<le> TIMEOUT_MAX"
  shows "bursts delay (filter (\<lambda>ob. obs_key ob = k) (snd (run delay t0 acts)))
    \<and> sorted_wrt (\<lambda>a b. a + delay \<le> b)
        (map snd (filter (\<lambda>(ev, t). de_key ev = k) (delivered (fst (run delay t0 acts)))))
    \<and> timers_of k (debounce delay k d (fst (run delay t0 acts)))
        = [(next_handle (fst (run delay t0 acts)), clock (fst (run delay t0 acts)) + delay, k)]
    \<and> pendingEvents (debounce delay k d (fst (run delay t0 acts))) k
        = Some \<lparr> de_key = k, de_data = d, de_timestamp = clock (fst (run delay t0 acts)) \<rparr>
    \<and> (\<forall>h. timers (fst (run delay t0 acts)) k = Some h
           \<longrightarrow> h \<notin> fst ` set (timer_queue (debounce delay k d (fst (run delay t0 acts)))))"
proof -
  let ?s = "fst (run delay t0 acts)" and ?tr = "snd (run delay t0 acts)"
  have inv: "deb_invariant delay ?s" and tr: "trace_invariant delay ?s ?tr"
    using run_inv [OF assms, of t0 acts] by simp_all
  have b: "bursts delay (filter (\<lambda>ob. obs_key ob = k) ?tr)"
    using tr unfolding trace_invariant_def by blast
  have srt: "sorted (map obs_time (filter (\<lambda>ob. obs_key ob = k) ?tr))"
    using tr unfolding trace_invariant_def by (simp add: sorted_filter)
  have del: "concat (map (\<lambda>ob. case ob of Fired ev t \<Rightarrow> [(ev, t)] | _ \<Rightarrow> []) ?tr) = delivered ?s"
    using tr unfolding trace_invariant_def by blast
  have sp: "sorted_wrt (\<lambda>a b. a + delay \<le> b)
        (map snd (filter (\<lambda>(ev, t). de_key ev = k) (delivered ?s)))"
    using fires_spaced [OF b srt] unfolding fires_of_key del .
  have tk: "timers_of k (debounce delay k d ?s) = [(next_handle ?s, clock ?s + delay, k)]"
    using debounce_step [OF inv tr assms] by blast
  have pe: "pendingEvents (debounce delay k d ?s) k
        = Some \<lparr> de_key = k, de_data = d, de_timestamp = clock ?s \<rparr>"
    by (simp add: debounce_fields)
  have old: "h \<notin> fst ` set (timer_queue (debounce delay k d ?s))" if h: "timers ?s k = Some h" for h
  proof -
    have "pendingEvents ?s k \<noteq> None" using h inv unfolding deb_invariant_def by fastforce
    then obtain ev where "pendingEvents ?s k = Some ev" by blast
    then have "timers_of k ?s = [(h, de_timestamp ev + delay, k)]"
      using h inv unfolding deb_invariant_def by fastforce
    then have "(h, de_timestamp ev + delay, k) \<in> set (timers_of k ?s)" by simp
    then have "(h, de_timestamp ev + delay, k) \<in> set (timer_queue ?s)"
      unfolding timers_of_def by simp
    then have "h < next_handle ?s" using inv unfolding deb_invariant_def by fastforce
    then show ?thesis using h by (auto simp: debounce_fields)
  qed
  from b sp tk pe old show ?thesis by blast
qed

text \<open>
  The theorem at a delay of 1000 ms: two calls 500 ms apart deliver once, the second
  call's data; a third call after that delivery delivers again, 1000 ms later.
\<close>

theorem debounce_once_per_window_witness:
  "snd (run 1000 0 [Debounce ''a'' (1::nat), Elapse 500, Debounce ''a'' 2, Elapse 1000,
                    Debounce ''a'' 3, Elapse 1000])
     = [Called ''a'' 1 0, Called ''a'' 2 500,
        Fired \<lparr> de_key = ''a'', de_data = 2, de_timestamp = 500 \<rparr> 1500,
        Called ''a'' 3 1500,
        Fired \<lparr> de_key = ''a'', de_data = 3, de_timestamp = 1500 \<rparr> 2500]
   \<and> timers_of ''a'' (debounce 1000 ''a'' (4::nat) (fst (run 1000 0 [Debounce ''a'' 1, Elapse 500])))
     = [(1, 1500, ''a'')]"
proof -
  have r1: "run 1000 0 [Debounce ''a'' (1::nat), Elapse 500]
        = (\<lparr> timers = [''a'' \<mapsto> 0],
              pendingEvents = [''a'' \<mapsto> \<lparr> de_key = ''a'', de_data = 1, de_timestamp = 0 \<rparr>],
              clock = 500, timer_queue = [(0, 1000, ''a'')], next_handle = 1, delivered = [] \<rparr>,
           [Called ''a'' 1 0])"
    by (simp add: run_def new_debouncer_def debounce_def setTimeout_def timeout_after_def
        TIMEOUT_MAX_def next_due_def Let_def)
  have tr: "snd (run 1000 0 [Debounce ''a'' (1::nat), Elapse 500, Debounce ''a'' 2, Elapse 1000,
                    Debounce ''a'' 3, Elapse 1000])
     = [Called ''a'' 1 0, Called ''a'' 2 500,
        Fired \<lparr> de_key = ''a'', de_data = 2, de_timestamp = 500 \<rparr> 1500,
        Called ''a'' 3 1500,
        Fired \<lparr> de_key = ''a'', de_data = 3, de_timestamp = 1500 \<rparr> 2500]"
    by (simp add: run_def new_debouncer_def debounce_def setTimeout_def clearTimeout_def
        on_timeout_def timeout_after_def TIMEOUT_MAX_def next_due_def Let_def)
  have "(1::int) \<le> 1000" "(1000::int) \<le> TIMEOUT_MAX" by (simp_all add: TIMEOUT_MAX_def)
  from debounce_once_per_window [OF this, of "''a''" 0 "[Debounce ''a'' (1::nat), Elapse 500]" "4::nat"]
  have "timers_of ''a'' (debounce 1000 ''a'' (4::nat) (fst (run 1000 0 [Debounce ''a'' 1, Elapse 500])))
     = [(1, 1500, ''a'')]"
    unfolding r1 by simp
  with tr show ?thesis by blast
qed

section \<open>The rate-limited executor\<close>

















end
